theory Spec2Isabelle
  imports Complex_Main
begin

section \<open>Host-language primitives\<close>

text \<open>
  The component is TypeScript. Its strings are modelled as \<open>string\<close> (a list of code
  units, here restricted to one byte, read as Latin-1), so \<open>length\<close> is the
  \<^verbatim>\<open>.length\<close> of the source. Its numbers are IEEE doubles; they are modelled as
  \<open>real\<close>, so every statement about scores is a statement about the exact value of the
  arithmetic expression the source writes.
\<close>

definition is_space :: "char \<Rightarrow> bool" where
  \<comment> \<open>the class \<^verbatim>\<open>\s\<close> of the regular expressions and of \<^verbatim>\<open>trim()\<close>, below code unit 256\<close>
  "is_space c = (c \<in> {CHR 0x09, CHR 0x0A, CHR 0x0B, CHR 0x0C, CHR 0x0D, CHR 0x20, CHR 0xA0})"

definition lower_char :: "char \<Rightarrow> char" where
  \<comment> \<open>\<^verbatim>\<open>toLowerCase()\<close> on one code unit: A-Z, and the Latin-1 capitals except the times sign\<close>
  "lower_char c =
     (let n = (of_char c :: nat)
      in if (65 \<le> n \<and> n \<le> 90) \<or> (192 \<le> n \<and> n \<le> 222 \<and> n \<noteq> 215)
         then char_of (n + 32) else c)"

definition toLowerCase :: "string \<Rightarrow> string" where
  "toLowerCase s = map lower_char s"

definition is_token_char :: "char \<Rightarrow> bool" where
  \<comment> \<open>the class \<^verbatim>\<open>[a-z0-9]\<close>\<close>
  "is_token_char c =
     (let n = (of_char c :: nat) in (97 \<le> n \<and> n \<le> 122) \<or> (48 \<le> n \<and> n \<le> 57))"

definition replace_other :: "string \<Rightarrow> string" where
  \<comment> \<open>\<^verbatim>\<open>.replace(/[^a-z0-9\s]/g, ' ')\<close>\<close>
  "replace_other s = map (\<lambda>c. if is_token_char c \<or> is_space c then c else CHR '' '') s"

text \<open>
  \<^verbatim>\<open>s.split(/\s+/)\<close>: the pieces between the maximal runs of white space. The empty
  string gives one empty piece; a leading or trailing run gives an empty first or last
  piece.
\<close>

function split_ws :: "string \<Rightarrow> string list" where
  "split_ws [] = [[]]"
| "split_ws (c # cs) =
     (if is_space c then [] # split_ws (dropWhile is_space cs)
      else (case split_ws cs of
              [] \<Rightarrow> [[c]]
            | w # ws \<Rightarrow> (c # w) # ws))"
  by pat_completeness auto
termination
  by (relation "measure length") (auto simp: length_dropWhile_le less_Suc_eq_le)

definition tokenize :: "string \<Rightarrow> string list" where
  \<comment> \<open>\<^verbatim>\<open>(s || '').toLowerCase().replace(...).split(/\s+/).filter(Boolean)\<close>\<close>
  "tokenize s = filter (\<lambda>w. w \<noteq> []) (split_ws (replace_other (toLowerCase s)))"

text \<open>
  \<^verbatim>\<open>new Set(xs)\<close> keeps one copy of every element; only sizes and membership are read
  from the sets, so the order in which \<open>remdups\<close> keeps the copies does not matter.
\<close>

definition jaccard :: "string \<Rightarrow> string \<Rightarrow> real" where
  "jaccard a b =
     (let A = remdups (tokenize a);
          B = remdups (tokenize b);
          inter = length (filter (\<lambda>x. x \<in> set B) A);
          size_u = length (remdups (A @ B));
          union = (if size_u = 0 then 1 else size_u)
      in real inter / real union)"

definition is_sentence_end :: "char \<Rightarrow> bool" where
  \<comment> \<open>the class \<^verbatim>\<open>[.!?]\<close>\<close>
  "is_sentence_end c = (c \<in> {CHR ''.'', CHR ''!'', CHR ''?''})"

definition fluencyProxy :: "string \<Rightarrow> real" where
  "fluencyProxy ans =
     (let len = length ans;
          matches = length (filter is_sentence_end ans);
          sentences = (if matches = 0 then 1 else matches)
      in min 1 ((real len / 200) * (real sentences / 2)))"

definition Math_round :: "real \<Rightarrow> int" where
  \<comment> \<open>\<^verbatim>\<open>Math.round\<close>: the nearest integer, a half rounded up\<close>
  "Math_round x = \<lfloor>x + 1 / 2\<rfloor>"


section \<open>Data model\<close>

datatype TaskType = Highlight | Short | Vocab

record Task =
  task_id :: string
  task_type :: TaskType
  prompt :: string
  task_done :: "bool option"
  answer :: "string option"

record Evidence =
  ev_id :: string
  ev_text :: string
  ev_start :: int
  ev_end :: int

datatype Quality = Strong | Medium | Weak

record Rubric =
  completeness :: real
  evidenceScore :: real
  relevance :: real
  fluency :: real
  levelAdjust :: real
  total :: real

text \<open>
  \<open>StudentRow\<close>: the optional fields of the source are options, \<open>None\<close> for
  \<^verbatim>\<open>undefined\<close>. The field \<^verbatim>\<open>tasks\<close> of a row (the string "7/7") is \<open>tasks_done\<close>
  here and the field \<^verbatim>\<open>evidence\<close> of a rubric is \<open>evidenceScore\<close>, since the module
  state has variables of both names.
\<close>

record StudentRow =
  name :: string
  time :: string
  tasks_done :: string
  quality :: Quality
  flags :: "string option"
  flagsDemo :: "bool option"
  score :: "int option"
  rubric :: "Rubric option"
  feedback :: "string option"

definition truthy_str :: "string option \<Rightarrow> bool" where
  \<comment> \<open>the truth value of an optional string: \<^verbatim>\<open>undefined\<close> and the empty string are false\<close>
  "truthy_str v = (case v of None \<Rightarrow> False | Some s \<Rightarrow> s \<noteq> [])"

definition truthy_bool :: "bool option \<Rightarrow> bool" where
  "truthy_bool v = (case v of None \<Rightarrow> False | Some b \<Rightarrow> b)"

text \<open>The module state: the variables declared with \<^verbatim>\<open>let\<close> at the top level.\<close>

record app_state =
  tasks :: "Task list"
  evidence :: "Evidence list"
  dwellMs :: nat
  rows :: "StudentRow list"
  premium :: bool
  skimEnabled :: bool

definition reading :: string where
  \<comment> \<open>the passage the module is initialised with: two paragraphs, a blank line between them\<close>
  "reading =
      ''The colony faced dwindling grain reserves after a failed harvest. Councils '' @
      ''debated rationing policy. Merchants argued for price ceilings while officials '' @
      ''proposed equitable distribution based on household size. Diaries from the '' @
      ''period reveal mixed reactions among townspeople, noting both relief and '' @
      ''resentment. Implementation of ration books began the following month. Bakers '' @
      ''received flour allocations tied to reported demand. Rumors of favoritism '' @
      ''spread, particularly concerning officials and their associates. Audits later '' @
      ''contradicted some claims.'' @
      [CHR 0x0A, CHR 0x0A] @
      ''Historians point out that rationing systems are often perceived as unfair in '' @
      ''the short term but can stabilize markets. The language of official notices '' @
      ''emphasized civic duty and mutual sacrifice, while diaries reveal anxiety over '' @
      ''scarcity and social standing.''"

definition initial_tasks :: "Task list" where
  \<comment> \<open>the prompts are display text only; their dash and quotation marks are written in ASCII\<close>
  "initial_tasks =
     [\<lparr>task_id = ''t1'', task_type = Highlight,
       prompt = ''Highlight the sentence where the author explains why rationing was necessary.'',
       task_done = None, answer = None\<rparr>,
      \<lparr>task_id = ''t2'', task_type = Short,
       prompt = ''Summarize paragraph 2 in your own words (1-2 sentences).'',
       task_done = None, answer = None\<rparr>,
      \<lparr>task_id = ''t3'', task_type = Vocab,
       prompt = ''Define the term ration.'',
       task_done = None, answer = None\<rparr>]"

definition new_row :: "string \<Rightarrow> string \<Rightarrow> string \<Rightarrow> Quality \<Rightarrow> StudentRow" where
  \<comment> \<open>an object literal \<^verbatim>\<open>{ name, time, tasks, quality }\<close>\<close>
  "new_row n t d q =
     \<lparr>name = n, time = t, tasks_done = d, quality = q, flags = None, flagsDemo = None,
      score = None, rubric = None, feedback = None\<rparr>"

definition initial_rows :: "StudentRow list" where
  "initial_rows =
     [new_row ''Alice W.'' ''15m'' ''7/7'' Strong,
      new_row ''Ben R.'' ''9m'' ''5/7'' Weak,
      new_row ''Chris T.'' ''14m'' ''6/7'' Medium]"

definition initial_state :: app_state where
  "initial_state =
     \<lparr>tasks = initial_tasks, evidence = [], dwellMs = 0, rows = initial_rows,
      premium = False, skimEnabled = False\<rparr>"

section \<open>Rubric scoring\<close>

text \<open>
  Both graders read the module variable \<^verbatim>\<open>reading\<close>; it is the first argument here.
  They assign fields of the row they are given and return it.
\<close>

definition gradeRowLLM :: "string \<Rightarrow> StudentRow \<Rightarrow> StudentRow" where
  "gradeRowLLM rd r =
     (let baseline = (if quality r = Strong then 0.8 else if quality r = Medium then 0.6 else 0.4);
          sampleAnswer =
            (if quality r = Strong
             then ''Rationing was necessary due to failed harvest and scarce supplies.''
             else if quality r = Medium
             then ''They made ration books to be fair.''
             else ''It was about food.'');
          relevance = jaccard rd sampleAnswer;
          fluency = fluencyProxy sampleAnswer;
          evidence = (if quality r \<noteq> Weak then 0.7 else 0.3);
          completeness = baseline;
          levelAdjust = (if quality r = Weak then 0.05 else if quality r = Strong then - 0.02 else 0.0);
          total = max 0 (min 1 (0.25 * completeness + 0.30 * relevance + 0.25 * evidence + 0.20 * fluency + levelAdjust))
      in r\<lparr>rubric := Some \<lparr>completeness = completeness, evidenceScore = evidence, relevance = relevance,
                             fluency = fluency, levelAdjust = levelAdjust, total = total\<rparr>,
            score := Some (Math_round (total * 100)),
            feedback := Some
              (if total > 0.85
               then ''Strong, on-topic, fluent. Consider citing a specific policy detail from the passage for full credit.''
               else if total > 0.65
               then ''Mostly correct. Clarify the rationale for rationing (failed harvest, scarcity) and reference a quoted sentence.''
               else ''Off-target or incomplete. Re-read the first paragraph and identify why rationing began; include a short quote as evidence.'')\<rparr>)"

definition flagPenalty :: "StudentRow \<Rightarrow> real" where
  \<comment> \<open>\<^verbatim>\<open>const flagPenalty = r.flags ? 0.1 : 0\<close>, a local of the rule-based grader\<close>
  "flagPenalty r = (if truthy_str (flags r) then 0.1 else 0)"

definition gradeRow :: "string \<Rightarrow> StudentRow \<Rightarrow> StudentRow" where
  "gradeRow rd r =
     (let baseline = (if quality r = Strong then 0.8 else if quality r = Medium then 0.6 else 0.4);
          sampleAnswer =
            (if quality r = Strong
             then ''Rationing was necessary due to failed harvest and scarce supplies.''
             else if quality r = Medium
             then ''They made ration books to be fair.''
             else ''It was about food.'');
          relevance = jaccard rd sampleAnswer;
          fluency = fluencyProxy sampleAnswer;
          evidence = (if quality r \<noteq> Weak then 0.7 else 0.3);
          completeness = baseline;
          levelAdjust = 0;
          total = max 0 (min 1 (0.25 * completeness + 0.30 * relevance + 0.25 * evidence + 0.20 * fluency - flagPenalty r + levelAdjust))
      in r\<lparr>rubric := Some \<lparr>completeness = completeness, evidenceScore = evidence, relevance = relevance,
                             fluency = fluency, levelAdjust = levelAdjust, total = total\<rparr>,
            score := Some (Math_round (total * 100))\<rparr>)"

definition gradeAllLLM :: "app_state \<Rightarrow> app_state" where
  "gradeAllLLM st = st\<lparr>rows := map (gradeRowLLM reading) (rows st)\<rparr>"

definition gradeAll :: "app_state \<Rightarrow> app_state" where
  "gradeAll st = st\<lparr>rows := map (gradeRow reading) (rows st)\<rparr>"


section \<open>Evidence capture\<close>

text \<open>
  The text nodes below the element \<^verbatim>\<open>#reading\<close>, in document order, as the tree walker
  with \<^verbatim>\<open>NodeFilter.SHOW_TEXT\<close> visits them. A node is compared by identity
  (\<^verbatim>\<open>===\<close>), so it carries a reference; a boundary container that is not one of these
  text nodes is a reference that no list element has.
\<close>

record TextNode =
  node_ref :: nat
  nodeValue :: "string option"

text \<open>
  What the handler reads from the selection: the boundary points of its first range,
  whether \<^verbatim>\<open>#reading\<close> contains the range's common ancestor, and
  \<^verbatim>\<open>selection.toString()\<close>. The handler is given \<open>None\<close> when there is no selection
  object or it has no range.
\<close>

record Selection =
  startContainer :: nat
  startOffset :: nat
  endContainer :: nat
  endOffset :: nat
  in_reading :: bool
  sel_text :: string

definition trim :: "string \<Rightarrow> string" where
  "trim s = rev (dropWhile is_space (rev (dropWhile is_space s)))"

definition digit_char :: "nat \<Rightarrow> char" where
  "digit_char d = char_of (48 + d)"

fun string_of_nat :: "nat \<Rightarrow> string" where
  \<comment> \<open>the decimal digits of a number, as string concatenation writes it\<close>
  "string_of_nat n =
     (if n < 10 then [digit_char n] else string_of_nat (n div 10) @ [digit_char (n mod 10)])"

declare string_of_nat.simps [simp del]

definition node_length :: "TextNode \<Rightarrow> nat" where
  \<comment> \<open>\<^verbatim>\<open>node.nodeValue?.length || 0\<close>\<close>
  "node_length node = (case nodeValue node of None \<Rightarrow> 0 | Some v \<Rightarrow> length v)"

text \<open>
  The \<^verbatim>\<open>while (walker.nextNode())\<close> loop, with its three variables \<open>acc\<close>,
  \<open>startGlobal\<close> and \<open>endGlobal\<close>; it returns the last two. The \<^verbatim>\<open>break\<close> is the
  branch that does not recurse.
\<close>

fun walk :: "TextNode list \<Rightarrow> Selection \<Rightarrow> int \<Rightarrow> int \<Rightarrow> int \<Rightarrow> int \<times> int" where
  "walk [] sel acc startGlobal endGlobal = (startGlobal, endGlobal)"
| "walk (node # rest) sel acc startGlobal endGlobal =
     (let startGlobal' =
            (if node_ref node = startContainer sel then acc + int (startOffset sel)
             else startGlobal)
      in if node_ref node = endContainer sel
         then (startGlobal', acc + int (endOffset sel))
         else walk rest sel (acc + int (node_length node)) startGlobal' endGlobal)"

fun mark_highlight_done :: "Task list \<Rightarrow> Task list" where
  \<comment> \<open>\<^verbatim>\<open>const ht = tasks.find(t => t.type === 'highlight'); if (ht) ht.done = true\<close>\<close>
  "mark_highlight_done [] = []"
| "mark_highlight_done (t # ts) =
     (if task_type t = Highlight then t\<lparr>task_done := Some True\<rparr> # ts
      else t # mark_highlight_done ts)"

text \<open>
  The handler returns the new state and whether it reached
  \<^verbatim>\<open>selection.removeAllRanges()\<close>, its only effect outside the module state.
\<close>

definition onMouseUpCapture ::
  "TextNode list \<Rightarrow> Selection option \<Rightarrow> app_state \<Rightarrow> app_state \<times> bool" where
  "onMouseUpCapture nodes selection st =
     (case selection of
        None \<Rightarrow> (st, False)
      | Some sel \<Rightarrow>
          if \<not> in_reading sel then (st, False)
          else if sel_text sel = [] \<or> length (trim (sel_text sel)) < 3 then (st, False)
          else
            (let (startGlobal, endGlobal) = walk nodes sel 0 (- 1) (- 1)
             in (if startGlobal \<ge> 0 \<and> endGlobal > startGlobal
                 then st\<lparr>evidence := evidence st @
                            [\<lparr>ev_id = ''e'' @ string_of_nat (length (evidence st) + 1),
                              ev_text = sel_text sel,
                              ev_start = startGlobal, ev_end = endGlobal\<rparr>],
                          tasks := mark_highlight_done (tasks st)\<rparr>
                 else st,
                 True)))"


definition slice :: "string \<Rightarrow> int \<Rightarrow> int \<Rightarrow> string" where
  \<comment> \<open>the code units at the positions \<open>[i, j)\<close>, for \<open>0 \<le> i\<close>\<close>
  "slice s i j = take (nat (j - i)) (drop (nat i) s)"

section \<open>Skim flags\<close>

text \<open>
  The two reactive blocks. Each is run when the switches or the rows change; their
  outer conditions exclude each other, so at most one of them assigns \<^verbatim>\<open>rows\<close>.
\<close>

definition auto_seed_demo :: "bool \<Rightarrow> bool \<Rightarrow> StudentRow list \<Rightarrow> StudentRow list" where
  "auto_seed_demo prem skim rs =
     (if prem \<and> skim then
        (if \<not> list_ex (\<lambda>r. truthy_str (flags r)) rs
         then map (\<lambda>r. if name r = ''Ben R.''
                        then r\<lparr>flags := Some ''Possible skim'', flagsDemo := Some True\<rparr>
                        else r) rs
         else rs)
      else rs)"

definition auto_clear_demo :: "bool \<Rightarrow> bool \<Rightarrow> StudentRow list \<Rightarrow> StudentRow list" where
  "auto_clear_demo prem skim rs =
     (if \<not> prem \<or> \<not> skim then
        (if list_ex (\<lambda>r. truthy_bool (flagsDemo r)) rs
         then map (\<lambda>r. if truthy_bool (flagsDemo r)
                        then r\<lparr>flags := None, flagsDemo := None\<rparr>
                        else r) rs
         else rs)
      else rs)"

definition reconcile :: "bool \<Rightarrow> bool \<Rightarrow> StudentRow list \<Rightarrow> StudentRow list" where
  \<comment> \<open>one run of both blocks, in the order of the source\<close>
  "reconcile prem skim rs = auto_clear_demo prem skim (auto_seed_demo prem skim rs)"

definition set_switches :: "bool \<Rightarrow> bool \<Rightarrow> app_state \<Rightarrow> app_state" where
  \<comment> \<open>the switches are assigned, then the reactive blocks run\<close>
  "set_switches prem skim st =
     st\<lparr>premium := prem, skimEnabled := skim, rows := reconcile prem skim (rows st)\<rparr>"

definition seedRealFlag :: "string \<Rightarrow> string option \<Rightarrow> StudentRow list \<Rightarrow> StudentRow list" where
  \<comment> \<open>the label is optional and defaults to \<^verbatim>\<open>'Skim (real)'\<close>\<close>
  "seedRealFlag n label rs =
     (let l = (case label of None \<Rightarrow> ''Skim (real)'' | Some s \<Rightarrow> s)
      in map (\<lambda>r. if name r = n then r\<lparr>flags := Some l, flagsDemo := Some False\<rparr> else r) rs)"

definition clearRealFlags :: "StudentRow list \<Rightarrow> StudentRow list" where
  "clearRealFlags rs = map (\<lambda>r. if truthy_bool (flagsDemo r) then r else r\<lparr>flags := None\<rparr>) rs"

fun run_toggles :: "(bool \<times> bool) list \<Rightarrow> StudentRow list \<Rightarrow> StudentRow list" where
  \<comment> \<open>a sequence of settings of (premium, skimEnabled), each followed by the reactive blocks\<close>
  "run_toggles [] rs = rs"
| "run_toggles ((prem, skim) # ts) rs = run_toggles ts (reconcile prem skim rs)"


section \<open>The specification's vocabulary\<close>

text \<open>
  The definitions of this section are not translations of the source. They write down
  the words of the specification, so that the theorems can compare them with the code.
\<close>

subsection \<open>Scoring\<close>

definition spec_completeness :: "Quality \<Rightarrow> real" where
  \<comment> \<open>the tier baseline\<close>
  "spec_completeness q = (case q of Strong \<Rightarrow> 0.8 | Medium \<Rightarrow> 0.6 | Weak \<Rightarrow> 0.4)"

definition sample_answer :: "Quality \<Rightarrow> string" where
  \<comment> \<open>the representative answer text of a tier\<close>
  "sample_answer q =
     (case q of
        Strong \<Rightarrow> ''Rationing was necessary due to failed harvest and scarce supplies.''
      | Medium \<Rightarrow> ''They made ration books to be fair.''
      | Weak \<Rightarrow> ''It was about food.'')"

definition spec_evidenceScore :: "Quality \<Rightarrow> real" where
  "spec_evidenceScore q = (case q of Weak \<Rightarrow> 0.3 | _ \<Rightarrow> 0.7)"

definition spec_levelAdjust_model :: "Quality \<Rightarrow> real" where
  \<comment> \<open>the level adjustment of the model-assisted policy\<close>
  "spec_levelAdjust_model q = (case q of Weak \<Rightarrow> 0.05 | Strong \<Rightarrow> - 0.02 | Medium \<Rightarrow> 0)"

definition clamp :: "real \<Rightarrow> real \<Rightarrow> real \<Rightarrow> real" where
  "clamp x lo hi = max lo (min hi x)"

definition spec_weighted :: "string \<Rightarrow> Quality \<Rightarrow> real" where
  \<comment> \<open>the weighted sum of the four sub-scores of a tier, before adjustment and clamping\<close>
  "spec_weighted rd q =
     0.25 * spec_completeness q + 0.30 * jaccard rd (sample_answer q)
     + 0.25 * spec_evidenceScore q + 0.20 * fluencyProxy (sample_answer q)"

definition spec_total :: "Rubric \<Rightarrow> real \<Rightarrow> real" where
  \<comment> \<open>the composite of the specification, from the sub-scores of a breakdown and a penalty\<close>
  "spec_total rb penalty =
     clamp (0.25 * completeness rb + 0.30 * relevance rb + 0.25 * evidenceScore rb
            + 0.20 * fluency rb + levelAdjust rb - penalty) 0 1"

definition feedback_commend :: string where
  "feedback_commend =
     ''Strong, on-topic, fluent. Consider citing a specific policy detail from the passage for full credit.''"

definition feedback_mostly :: string where
  "feedback_mostly =
     ''Mostly correct. Clarify the rationale for rationing (failed harvest, scarcity) and reference a quoted sentence.''"

definition feedback_off_target :: string where
  "feedback_off_target =
     ''Off-target or incomplete. Re-read the first paragraph and identify why rationing began; include a short quote as evidence.''"

definition spec_feedback :: "real \<Rightarrow> string" where
  \<comment> \<open>the three tiers of the specification\<close>
  "spec_feedback t =
     (if t > 0.85 then feedback_commend
      else if 0.65 < t \<and> t \<le> 0.85 then feedback_mostly
      else feedback_off_target)"

definition sub_scores_coincide :: "string \<Rightarrow> StudentRow \<Rightarrow> bool" where
  \<comment> \<open>both graders derive the same evidence score and, with the flag penalty of the
      rule-based grader folded into it, the same level adjustment\<close>
  "sub_scores_coincide rd r =
     (case (rubric (gradeRow rd r), rubric (gradeRowLLM rd r)) of
        (Some a, Some b) \<Rightarrow>
          evidenceScore a = evidenceScore b \<and> levelAdjust a - flagPenalty r = levelAdjust b
      | _ \<Rightarrow> False)"

subsection \<open>Selections\<close>

definition resolve_offsets :: "TextNode list \<Rightarrow> Selection \<Rightarrow> int \<times> int" where
  \<comment> \<open>the loop as the handler starts it\<close>
  "resolve_offsets nodes sel = walk nodes sel 0 (- 1) (- 1)"

fun visited :: "TextNode list \<Rightarrow> nat \<Rightarrow> TextNode list" where
  \<comment> \<open>the nodes the walker visits: up to and including the first one the end refers to\<close>
  "visited [] e = []"
| "visited (node # rest) e = (if node_ref node = e then [node] else node # visited rest e)"

definition end_matched :: "TextNode list \<Rightarrow> Selection \<Rightarrow> bool" where
  "end_matched nodes sel = (endContainer sel \<in> set (map node_ref nodes))"

definition start_matched :: "TextNode list \<Rightarrow> Selection \<Rightarrow> bool" where
  "start_matched nodes sel =
     (startContainer sel \<in> set (map node_ref (visited nodes (endContainer sel))))"





subsection \<open>Flags\<close>

definition carries_flag :: "StudentRow \<Rightarrow> bool" where
  \<comment> \<open>the test \<^verbatim>\<open>r.flags\<close> of the source\<close>
  "carries_flag r = truthy_str (flags r)"

definition demo_flag :: "StudentRow \<Rightarrow> bool" where
  "demo_flag r = (carries_flag r \<and> truthy_bool (flagsDemo r))"

definition persisted_flag :: "StudentRow \<Rightarrow> bool" where
  "persisted_flag r = (carries_flag r \<and> \<not> truthy_bool (flagsDemo r))"

definition flags_consistent :: "StudentRow list \<Rightarrow> bool" where
  \<comment> \<open>the demo marker is only set together with a flag; every operation on flags keeps this\<close>
  "flags_consistent rs = list_all (\<lambda>r. truthy_bool (flagsDemo r) \<longrightarrow> carries_flag r) rs"

definition three_cycles :: "(bool \<times> bool) list" where
  \<comment> \<open>skim alerts switched on and off three times, with premium on\<close>
  "three_cycles =
     [(True, True), (True, False), (True, True), (True, False), (True, True), (True, False)]"

section \<open>Lexical similarity\<close>

lemma union_floor: "(if n = 0 then 1 else n) = max 1 (n::nat)"
  by (simp add: max_def)

lemma jaccard_token_sets:
  "jaccard a b =
     real (card (set (tokenize a) \<inter> set (tokenize b))) /
     real (max 1 (card (set (tokenize a) \<union> set (tokenize b))))"
proof -
  let ?A = "remdups (tokenize a)" and ?B = "remdups (tokenize b)"
  have inter:
    "length (filter (\<lambda>x. x \<in> set ?B) ?A) = card (set (tokenize a) \<inter> set (tokenize b))"
    by (simp add: distinct_length_filter Int_commute)
  have un: "length (remdups (?A @ ?B)) = card (set (tokenize a) \<union> set (tokenize b))"
    by (simp add: length_remdups_card_conv)
  show ?thesis
    unfolding jaccard_def Let_def inter un union_floor ..
qed

text \<open>
  C8, as amended. \<open>jaccard a b\<close> is the size of the intersection of the two token sets
  divided by the size of their union, the divisor being at least 1. A text compared
  with itself scores 1 when it has at least one token and 0 when it has none; two
  texts without tokens score 0.
\<close>

theorem jaccard_self:
  "jaccard a b =
     real (card (set (tokenize a) \<inter> set (tokenize b))) /
     real (max 1 (card (set (tokenize a) \<union> set (tokenize b))))
   \<and> jaccard a a = (if tokenize a = [] then 0 else 1)
   \<and> (tokenize a = [] \<and> tokenize b = [] \<longrightarrow> jaccard a b = 0)"
proof -
  have self: "jaccard a a = (if tokenize a = [] then 0 else 1)"
  proof (cases "tokenize a = []")
    case True
    then show ?thesis by (simp add: jaccard_token_sets)
  next
    case False
    then have "0 < card (set (tokenize a))"
      by (simp add: card_gt_0_iff)
    then show ?thesis using False
      by (simp add: jaccard_token_sets max_def)
  qed
  have empty: "tokenize a = [] \<and> tokenize b = [] \<longrightarrow> jaccard a b = 0"
    by (simp add: jaccard_token_sets)
  from jaccard_token_sets self empty show ?thesis by blast
qed

theorem jaccard_self_witness:
  "tokenize ''The cat'' \<noteq> [] \<and> jaccard ''The cat'' ''The cat'' = 1
   \<and> tokenize '''' = [] \<and> jaccard '''' '''' = 0"
proof -
  have t: "tokenize ''The cat'' = [''the'', ''cat'']" by code_simp
  have e: "tokenize '''' = []" by code_simp
  from jaccard_self [of "''The cat''" "''The cat''"] jaccard_self [of "''''" "''''"] t e
  show ?thesis by simp
qed

text \<open>
  C8 as stated fails: the one-character text \<open>!\<close> is not empty, but it has no token,
  and its similarity with itself is 0.
\<close>

theorem jaccard_self_counterexample:
  "''!'' \<noteq> [] \<and> jaccard ''!'' ''!'' = 0"
  by code_simp

section \<open>Fluency\<close>







section \<open>Evidence capture: the worked example\<close>

text \<open>
  C4. The document \<open>The cat sat. The dog ran.\<close> is one text node. The text
  \<open>The dog ran.\<close> is its slice from 13 to 25, and the selection with these two offsets
  in that node appends a span with start 13 and end 25 to the evidence, whatever the
  state; from the initial state it is the span \<open>e1\<close>.
\<close>

theorem offset_example:
  "onMouseUpCapture
     [\<lparr>node_ref = 0, nodeValue = Some ''The cat sat. The dog ran.''\<rparr>]
     (Some \<lparr>startContainer = 0, startOffset = 13, endContainer = 0, endOffset = 25,
            in_reading = True, sel_text = ''The dog ran.''\<rparr>)
     st
   = (st\<lparr>evidence := evidence st @
           [\<lparr>ev_id = ''e'' @ string_of_nat (length (evidence st) + 1),
             ev_text = ''The dog ran.'', ev_start = 13, ev_end = 25\<rparr>],
         tasks := mark_highlight_done (tasks st)\<rparr>, True)
   \<and> slice ''The cat sat. The dog ran.'' 13 25 = ''The dog ran.''
   \<and> evidence (fst (onMouseUpCapture
        [\<lparr>node_ref = 0, nodeValue = Some ''The cat sat. The dog ran.''\<rparr>]
        (Some \<lparr>startContainer = 0, startOffset = 13, endContainer = 0, endOffset = 25,
               in_reading = True, sel_text = ''The dog ran.''\<rparr>)
        initial_state))
     = [\<lparr>ev_id = ''e1'', ev_text = ''The dog ran.'', ev_start = 13, ev_end = 25\<rparr>]"
proof -
  have t: "trim ''The dog ran.'' = ''The dog ran.''"
    by (simp add: trim_def is_space_def)
  have s: "slice ''The cat sat. The dog ran.'' 13 25 = ''The dog ran.''"
    by (simp add: slice_def)
  have i: "string_of_nat (Suc 0) = ''1''"
    by code_simp
  show ?thesis
    by (simp add: onMouseUpCapture_def t s i initial_state_def)
qed

section \<open>Rubric scoring: composite and score\<close>



lemma spec_feedback_code:
  "spec_feedback t =
     (if t > 0.85 then feedback_commend
      else if t > 0.65 then feedback_mostly else feedback_off_target)"
  by (simp add: spec_feedback_def)

text \<open>The conditional expressions of the source, as the tables of the specification.\<close>

lemma baseline_if:
  "(if q = Strong then 0.8 else if q = Medium then 0.6 else 0.4) = spec_completeness q"
  by (cases q) (simp_all add: spec_completeness_def)

lemma sample_if:
  "(if q = Strong then ''Rationing was necessary due to failed harvest and scarce supplies.''
    else if q = Medium then ''They made ration books to be fair.''
    else ''It was about food.'') = sample_answer q"
  by (cases q) (simp_all add: sample_answer_def)

lemma evidence_if: "(if q \<noteq> Weak then 0.7 else 0.3) = spec_evidenceScore q"
  by (cases q) (simp_all add: spec_evidenceScore_def)

lemma adjust_if:
  "(if q = Weak then 0.05 else if q = Strong then - 0.02 else 0.0) = spec_levelAdjust_model q"
  by (cases q) (simp_all add: spec_levelAdjust_model_def)

text \<open>
  Each grader, with its local constants substituted: the row it returns, as a record
  update whose fields are written with the tables of the specification.
\<close>

lemma gradeRowLLM_shape:
  "gradeRowLLM rd r =
     r\<lparr>rubric := Some
          \<lparr>completeness = spec_completeness (quality r),
           evidenceScore = spec_evidenceScore (quality r),
           relevance = jaccard rd (sample_answer (quality r)),
           fluency = fluencyProxy (sample_answer (quality r)),
           levelAdjust = spec_levelAdjust_model (quality r),
           total = clamp (spec_weighted rd (quality r)
                          + spec_levelAdjust_model (quality r)) 0 1\<rparr>,
       score := Some (Math_round
          (clamp (spec_weighted rd (quality r) + spec_levelAdjust_model (quality r)) 0 1 * 100)),
       feedback := Some
         (if clamp (spec_weighted rd (quality r) + spec_levelAdjust_model (quality r)) 0 1 > 0.85
          then feedback_commend
          else if clamp (spec_weighted rd (quality r)
                         + spec_levelAdjust_model (quality r)) 0 1 > 0.65
          then feedback_mostly
          else feedback_off_target)\<rparr>"
  unfolding gradeRowLLM_def Let_def baseline_if sample_if evidence_if adjust_if
    feedback_commend_def feedback_mostly_def feedback_off_target_def
    clamp_def spec_weighted_def
  by (rule refl)

lemma gradeRow_shape:
  "gradeRow rd r =
     r\<lparr>rubric := Some
          \<lparr>completeness = spec_completeness (quality r),
           evidenceScore = spec_evidenceScore (quality r),
           relevance = jaccard rd (sample_answer (quality r)),
           fluency = fluencyProxy (sample_answer (quality r)),
           levelAdjust = 0,
           total = clamp (spec_weighted rd (quality r) - flagPenalty r + 0) 0 1\<rparr>,
       score := Some (Math_round
          (clamp (spec_weighted rd (quality r) - flagPenalty r + 0) 0 1 * 100))\<rparr>"
  unfolding gradeRow_def Let_def baseline_if sample_if evidence_if clamp_def spec_weighted_def
  by (rule refl)

lemma gradeRow_score:
  "\<exists>rb. rubric (gradeRow rd r) = Some rb
     \<and> total rb = spec_total rb (flagPenalty r)
     \<and> score (gradeRow rd r) = Some (Math_round (total rb * 100))
     \<and> feedback (gradeRow rd r) = feedback r"
proof -
  define T where "T = clamp (spec_weighted rd (quality r) - flagPenalty r + 0) 0 1"
  let ?rb = "\<lparr>completeness = spec_completeness (quality r),
           evidenceScore = spec_evidenceScore (quality r),
           relevance = jaccard rd (sample_answer (quality r)),
           fluency = fluencyProxy (sample_answer (quality r)),
           levelAdjust = 0, total = T\<rparr>"
  have eq: "gradeRow rd r = r\<lparr>rubric := Some ?rb, score := Some (Math_round (T * 100))\<rparr>"
    unfolding T_def by (rule gradeRow_shape)
  have "spec_total ?rb (flagPenalty r) = T"
    unfolding T_def spec_total_def spec_weighted_def by simp
  then show ?thesis
    unfolding eq by simp
qed

lemma gradeRowLLM_score:
  "\<exists>rb. rubric (gradeRowLLM rd r) = Some rb
     \<and> total rb = spec_total rb 0
     \<and> score (gradeRowLLM rd r) = Some (Math_round (total rb * 100))
     \<and> feedback (gradeRowLLM rd r) = Some (spec_feedback (total rb))"
proof -
  define T where
    "T = clamp (spec_weighted rd (quality r) + spec_levelAdjust_model (quality r)) 0 1"
  let ?rb = "\<lparr>completeness = spec_completeness (quality r),
           evidenceScore = spec_evidenceScore (quality r),
           relevance = jaccard rd (sample_answer (quality r)),
           fluency = fluencyProxy (sample_answer (quality r)),
           levelAdjust = spec_levelAdjust_model (quality r), total = T\<rparr>"
  have eq: "gradeRowLLM rd r =
      r\<lparr>rubric := Some ?rb, score := Some (Math_round (T * 100)),
        feedback := Some (if T > 0.85 then feedback_commend
                          else if T > 0.65 then feedback_mostly else feedback_off_target)\<rparr>"
    unfolding T_def by (rule gradeRowLLM_shape)
  have "spec_total ?rb 0 = T"
    unfolding T_def spec_total_def spec_weighted_def by simp
  then show ?thesis
    unfolding eq spec_feedback_code by simp
qed



section \<open>The two graders compared\<close>

lemma flagPenalty_values: "flagPenalty r = (if carries_flag r then 1 / 10 else 0)"
  by (simp add: flagPenalty_def carries_flag_def)

lemma coincide_iff: "sub_scores_coincide rd r \<longleftrightarrow> quality r = Medium \<and> \<not> carries_flag r"
  unfolding sub_scores_coincide_def gradeRow_shape gradeRowLLM_shape
  by (cases "quality r") (simp_all add: spec_levelAdjust_model_def flagPenalty_values)

lemma medium_unflagged_agree:
  assumes q: "quality r = Medium" and f: "\<not> carries_flag r"
  shows "rubric (gradeRow rd r) = rubric (gradeRowLLM rd r)
       \<and> score (gradeRow rd r) = score (gradeRowLLM rd r)
       \<and> gradeRowLLM rd r = (gradeRow rd r)\<lparr>feedback := feedback (gradeRowLLM rd r)\<rparr>"
proof -
  have p: "flagPenalty r = 0"
    using f by (simp add: flagPenalty_values)
  have a: "spec_levelAdjust_model Medium = 0"
    by (simp add: spec_levelAdjust_model_def)
  show ?thesis
    unfolding gradeRow_shape gradeRowLLM_shape q p a by simp
qed

lemma gradeRow_fields:
  "\<exists>a. rubric (gradeRow rd r) = Some a
     \<and> completeness a = spec_completeness (quality r)
     \<and> evidenceScore a = spec_evidenceScore (quality r)
     \<and> relevance a = jaccard rd (sample_answer (quality r))
     \<and> fluency a = fluencyProxy (sample_answer (quality r))
     \<and> levelAdjust a = 0
     \<and> total a = clamp (spec_weighted rd (quality r) + (0 - flagPenalty r)) 0 1"
proof -
  have "spec_weighted rd (quality r) - flagPenalty r + 0
        = spec_weighted rd (quality r) + (0 - flagPenalty r)"
    by simp
  then show ?thesis
    unfolding gradeRow_shape by simp
qed

lemma gradeRowLLM_fields:
  "\<exists>b. rubric (gradeRowLLM rd r) = Some b
     \<and> completeness b = spec_completeness (quality r)
     \<and> evidenceScore b = spec_evidenceScore (quality r)
     \<and> relevance b = jaccard rd (sample_answer (quality r))
     \<and> fluency b = fluencyProxy (sample_answer (quality r))
     \<and> levelAdjust b = spec_levelAdjust_model (quality r)
     \<and> total b = clamp (spec_weighted rd (quality r) + spec_levelAdjust_model (quality r)) 0 1"
  unfolding gradeRowLLM_shape by simp

text \<open>
  C2, as amended. Both graders store the same completeness, relevance, fluency and
  evidence score, and a total that is the same weighted sum plus the level adjustment
  (less the flag penalty in the rule-based grader), clamped to the unit interval. Only
  the model-assisted grader assigns a feedback string, the tier of the specification
  for its total; the rule-based grader leaves the feedback of the row as it was. The
  level adjustments, with the penalty folded in, coincide exactly for an unflagged row
  of the tier Medium; there both graders store the same breakdown and the same score,
  and their results differ in the feedback only.
\<close>

theorem variants_agree:
  "(\<exists>a b. rubric (gradeRow rd r) = Some a \<and> rubric (gradeRowLLM rd r) = Some b
      \<and> completeness a = completeness b \<and> relevance a = relevance b
      \<and> fluency a = fluency b \<and> evidenceScore a = evidenceScore b
      \<and> total a = clamp (spec_weighted rd (quality r) + (levelAdjust a - flagPenalty r)) 0 1
      \<and> total b = clamp (spec_weighted rd (quality r) + levelAdjust b) 0 1
      \<and> feedback (gradeRowLLM rd r) = Some (spec_feedback (total b)))
   \<and> feedback (gradeRow rd r) = feedback r
   \<and> (sub_scores_coincide rd r \<longrightarrow>
        rubric (gradeRow rd r) = rubric (gradeRowLLM rd r)
        \<and> score (gradeRow rd r) = score (gradeRowLLM rd r)
        \<and> gradeRowLLM rd r = (gradeRow rd r)\<lparr>feedback := feedback (gradeRowLLM rd r)\<rparr>)"
proof (intro conjI)
  obtain a where a: "rubric (gradeRow rd r) = Some a"
      "completeness a = spec_completeness (quality r)"
      "evidenceScore a = spec_evidenceScore (quality r)"
      "relevance a = jaccard rd (sample_answer (quality r))"
      "fluency a = fluencyProxy (sample_answer (quality r))"
      "levelAdjust a = 0"
      "total a = clamp (spec_weighted rd (quality r) + (0 - flagPenalty r)) 0 1"
    using gradeRow_fields by blast
  obtain b where b: "rubric (gradeRowLLM rd r) = Some b"
      "completeness b = spec_completeness (quality r)"
      "evidenceScore b = spec_evidenceScore (quality r)"
      "relevance b = jaccard rd (sample_answer (quality r))"
      "fluency b = fluencyProxy (sample_answer (quality r))"
      "levelAdjust b = spec_levelAdjust_model (quality r)"
      "total b = clamp (spec_weighted rd (quality r) + spec_levelAdjust_model (quality r)) 0 1"
    using gradeRowLLM_fields by blast
  obtain b' where b': "rubric (gradeRowLLM rd r) = Some b'"
      "feedback (gradeRowLLM rd r) = Some (spec_feedback (total b'))"
    using gradeRowLLM_score by blast
  from b(1) b'(1) have "b' = b"
    by simp
  with b'(2) have fb: "feedback (gradeRowLLM rd r) = Some (spec_feedback (total b))"
    by simp
  show "\<exists>a b. rubric (gradeRow rd r) = Some a \<and> rubric (gradeRowLLM rd r) = Some b
      \<and> completeness a = completeness b \<and> relevance a = relevance b
      \<and> fluency a = fluency b \<and> evidenceScore a = evidenceScore b
      \<and> total a = clamp (spec_weighted rd (quality r) + (levelAdjust a - flagPenalty r)) 0 1
      \<and> total b = clamp (spec_weighted rd (quality r) + levelAdjust b) 0 1
      \<and> feedback (gradeRowLLM rd r) = Some (spec_feedback (total b))"
    using a b fb by (intro exI [of _ a] exI [of _ b]) simp
  show "feedback (gradeRow rd r) = feedback r"
    using gradeRow_score by blast
  show "sub_scores_coincide rd r \<longrightarrow>
        rubric (gradeRow rd r) = rubric (gradeRowLLM rd r)
        \<and> score (gradeRow rd r) = score (gradeRowLLM rd r)
        \<and> gradeRowLLM rd r = (gradeRow rd r)\<lparr>feedback := feedback (gradeRowLLM rd r)\<rparr>"
  proof
    assume "sub_scores_coincide rd r"
    then have "quality r = Medium" and "\<not> carries_flag r"
      by (simp_all add: coincide_iff)
    then show "rubric (gradeRow rd r) = rubric (gradeRowLLM rd r)
        \<and> score (gradeRow rd r) = score (gradeRowLLM rd r)
        \<and> gradeRowLLM rd r = (gradeRow rd r)\<lparr>feedback := feedback (gradeRowLLM rd r)\<rparr>"
      by (rule medium_unflagged_agree)
  qed
qed

theorem variants_agree_witness:
  "sub_scores_coincide reading (new_row ''Chris T.'' ''14m'' ''6/7'' Medium)
   \<and> rubric (gradeRow reading (new_row ''Chris T.'' ''14m'' ''6/7'' Medium))
     = rubric (gradeRowLLM reading (new_row ''Chris T.'' ''14m'' ''6/7'' Medium))
   \<and> score (gradeRow reading (new_row ''Chris T.'' ''14m'' ''6/7'' Medium))
     = score (gradeRowLLM reading (new_row ''Chris T.'' ''14m'' ''6/7'' Medium))"
proof -
  have c: "sub_scores_coincide reading (new_row ''Chris T.'' ''14m'' ''6/7'' Medium)"
    unfolding coincide_iff by (simp add: carries_flag_def new_row_def truthy_str_def)
  note v = variants_agree [of reading "new_row ''Chris T.'' ''14m'' ''6/7'' Medium"]
  note agree = v [THEN conjunct2, THEN conjunct2, rule_format, OF c]
  from agree have "rubric (gradeRow reading (new_row ''Chris T.'' ''14m'' ''6/7'' Medium))
          = rubric (gradeRowLLM reading (new_row ''Chris T.'' ''14m'' ''6/7'' Medium))
        \<and> score (gradeRow reading (new_row ''Chris T.'' ''14m'' ''6/7'' Medium))
          = score (gradeRowLLM reading (new_row ''Chris T.'' ''14m'' ''6/7'' Medium))"
    by (intro conjI) (erule conjunct1, drule conjunct2, erule conjunct1)
  with c show ?thesis
    by blast
qed

text \<open>
  C2 as stated fails on the row of Chris T. as the module creates it: the sub-scores
  coincide, the rule-based grader leaves the row without feedback, and the
  model-assisted grader gives it one.
\<close>

theorem variants_feedback_counterexample:
  "sub_scores_coincide reading (new_row ''Chris T.'' ''14m'' ''6/7'' Medium)
   \<and> feedback (gradeRow reading (new_row ''Chris T.'' ''14m'' ''6/7'' Medium)) = None
   \<and> feedback (gradeRowLLM reading (new_row ''Chris T.'' ''14m'' ''6/7'' Medium)) \<noteq> None"
proof -
  have c: "sub_scores_coincide reading (new_row ''Chris T.'' ''14m'' ''6/7'' Medium)"
    unfolding coincide_iff by (simp add: carries_flag_def new_row_def truthy_str_def)
  have "feedback (gradeRow reading (new_row ''Chris T.'' ''14m'' ''6/7'' Medium))
        = feedback (new_row ''Chris T.'' ''14m'' ''6/7'' Medium)"
    using gradeRow_score by blast
  then have n: "feedback (gradeRow reading (new_row ''Chris T.'' ''14m'' ''6/7'' Medium)) = None"
    by (simp add: new_row_def)
  have s: "feedback (gradeRowLLM reading (new_row ''Chris T.'' ''14m'' ''6/7'' Medium)) \<noteq> None"
    using gradeRowLLM_score [of reading "new_row ''Chris T.'' ''14m'' ''6/7'' Medium"] by auto
  from c n s show ?thesis by simp
qed

section \<open>What the graders read\<close>

lemma llm_same_tier:
  assumes "quality r1 = quality r2"
  shows "rubric (gradeRowLLM rd r1) = rubric (gradeRowLLM rd r2)
      \<and> score (gradeRowLLM rd r1) = score (gradeRowLLM rd r2)
      \<and> feedback (gradeRowLLM rd r1) = feedback (gradeRowLLM rd r2)"
  unfolding gradeRowLLM_shape assms by simp

lemma rule_same_tier:
  assumes "quality r1 = quality r2" and "carries_flag r1 = carries_flag r2"
  shows "rubric (gradeRow rd r1) = rubric (gradeRow rd r2)
      \<and> score (gradeRow rd r1) = score (gradeRow rd r2)"
proof -
  have p: "flagPenalty r1 = flagPenalty r2"
    using assms(2) by (simp add: flagPenalty_values)
  show ?thesis
    unfolding gradeRow_shape assms(1) p by simp
qed

text \<open>
  C10, as amended. The graders read the tier of a row, and the rule-based one whether
  the row is flagged; the answer they score is the sample of the tier. Two rows of the
  same tier get the same breakdown, score and feedback from the model-assisted grader;
  with the same flag presence they get the same breakdown and score from the
  rule-based grader, which leaves the feedback of each row as it was. The tasks, the
  captured evidence and the dwell time of the module state do not enter either batch.
\<close>

theorem grading_ignores_learner_work:
  "(quality r1 = quality r2 \<longrightarrow>
      rubric (gradeRowLLM rd r1) = rubric (gradeRowLLM rd r2)
      \<and> score (gradeRowLLM rd r1) = score (gradeRowLLM rd r2)
      \<and> feedback (gradeRowLLM rd r1) = feedback (gradeRowLLM rd r2))
   \<and> (quality r1 = quality r2 \<and> carries_flag r1 = carries_flag r2 \<longrightarrow>
      rubric (gradeRow rd r1) = rubric (gradeRow rd r2)
      \<and> score (gradeRow rd r1) = score (gradeRow rd r2))
   \<and> feedback (gradeRow rd r1) = feedback r1
   \<and> (\<exists>rb. rubric (gradeRow rd r1) = Some rb
        \<and> relevance rb = jaccard rd (sample_answer (quality r1))
        \<and> fluency rb = fluencyProxy (sample_answer (quality r1)))
   \<and> (\<exists>rb. rubric (gradeRowLLM rd r1) = Some rb
        \<and> relevance rb = jaccard rd (sample_answer (quality r1))
        \<and> fluency rb = fluencyProxy (sample_answer (quality r1)))
   \<and> rows (gradeAll (st\<lparr>tasks := ts, evidence := es, dwellMs := ms\<rparr>)) = rows (gradeAll st)
   \<and> rows (gradeAllLLM (st\<lparr>tasks := ts, evidence := es, dwellMs := ms\<rparr>)) = rows (gradeAllLLM st)"
proof -
  have f: "feedback (gradeRow rd r1) = feedback r1"
    using gradeRow_score by blast
  have s1: "\<exists>rb. rubric (gradeRow rd r1) = Some rb
        \<and> relevance rb = jaccard rd (sample_answer (quality r1))
        \<and> fluency rb = fluencyProxy (sample_answer (quality r1))"
    unfolding gradeRow_shape by simp
  have s2: "\<exists>rb. rubric (gradeRowLLM rd r1) = Some rb
        \<and> relevance rb = jaccard rd (sample_answer (quality r1))
        \<and> fluency rb = fluencyProxy (sample_answer (quality r1))"
    unfolding gradeRowLLM_shape by simp
  have a: "rows (gradeAll (st\<lparr>tasks := ts, evidence := es, dwellMs := ms\<rparr>)) = rows (gradeAll st)"
    by (simp add: gradeAll_def)
  have b: "rows (gradeAllLLM (st\<lparr>tasks := ts, evidence := es, dwellMs := ms\<rparr>)) = rows (gradeAllLLM st)"
    by (simp add: gradeAllLLM_def)
  from llm_same_tier [of r1 r2 rd] rule_same_tier [of r1 r2 rd] f s1 s2 a b show ?thesis
    by (intro conjI impI) simp_all
qed

theorem grading_ignores_learner_work_witness:
  "rubric (gradeRow reading (new_row ''Ann'' ''2m'' ''1/7'' Weak))
     = rubric (gradeRow reading (new_row ''Ben R.'' ''9m'' ''5/7'' Weak))
   \<and> score (gradeRowLLM reading (new_row ''Ann'' ''2m'' ''1/7'' Weak))
     = score (gradeRowLLM reading (new_row ''Ben R.'' ''9m'' ''5/7'' Weak))
   \<and> feedback (gradeRowLLM reading (new_row ''Ann'' ''2m'' ''1/7'' Weak))
     = feedback (gradeRowLLM reading (new_row ''Ben R.'' ''9m'' ''5/7'' Weak))"
proof -
  have q: "quality (new_row ''Ann'' ''2m'' ''1/7'' Weak) = quality (new_row ''Ben R.'' ''9m'' ''5/7'' Weak)"
    by (simp add: new_row_def)
  have f: "carries_flag (new_row ''Ann'' ''2m'' ''1/7'' Weak)
           = carries_flag (new_row ''Ben R.'' ''9m'' ''5/7'' Weak)"
    by (simp add: new_row_def carries_flag_def)
  from grading_ignores_learner_work
    [of "new_row ''Ann'' ''2m'' ''1/7'' Weak" "new_row ''Ben R.'' ''9m'' ''5/7'' Weak" reading] q f
  show ?thesis by simp
qed

text \<open>
  C10 as stated fails for the rule-based grader: of two unflagged rows of the tier
  Medium, one without feedback and one that carries a feedback string from an earlier
  grading, the first still has none and the second still has its own.
\<close>

theorem rule_based_feedback_counterexample:
  "quality (new_row ''Ann'' ''12m'' ''6/7'' Medium)
     = quality ((new_row ''Chris T.'' ''14m'' ''6/7'' Medium)\<lparr>feedback := Some feedback_mostly\<rparr>)
   \<and> carries_flag (new_row ''Ann'' ''12m'' ''6/7'' Medium)
     = carries_flag ((new_row ''Chris T.'' ''14m'' ''6/7'' Medium)\<lparr>feedback := Some feedback_mostly\<rparr>)
   \<and> feedback (gradeRow reading (new_row ''Ann'' ''12m'' ''6/7'' Medium))
     \<noteq> feedback (gradeRow reading
          ((new_row ''Chris T.'' ''14m'' ''6/7'' Medium)\<lparr>feedback := Some feedback_mostly\<rparr>))"
proof -
  have f: "feedback (gradeRow reading x) = feedback x" for x
    using gradeRow_score by blast
  show ?thesis
    unfolding f by (simp add: new_row_def carries_flag_def)
qed

section \<open>Evidence capture: the handler\<close>

lemma trim_empty: "trim [] = []"
  by (simp add: trim_def)


text \<open>The loop, started with a running offset that is not negative and no end found.\<close>

lemma walk_end_matched:
  "0 \<le> acc \<Longrightarrow>
     (0 \<le> snd (walk nodes sel acc sg (- 1))) = (endContainer sel \<in> set (map node_ref nodes))"
  by (induction nodes arbitrary: acc sg) (auto simp: Let_def)

lemma walk_start_matched:
  "0 \<le> acc \<Longrightarrow>
     (0 \<le> fst (walk nodes sel acc sg (- 1)))
       = (0 \<le> sg \<or> startContainer sel \<in> set (map node_ref (visited nodes (endContainer sel))))"
  by (induction nodes arbitrary: acc sg) (auto simp: Let_def)


lemma resolve_matched:
  "(0 \<le> fst (resolve_offsets nodes sel)) = start_matched nodes sel"
  "(0 \<le> snd (resolve_offsets nodes sel)) = end_matched nodes sel"
  by (simp_all add: resolve_offsets_def start_matched_def end_matched_def
      walk_start_matched walk_end_matched)


text \<open>The handler in one equation: the selections it accepts and what it does then.\<close>

lemma capture_step:
  "fst (onMouseUpCapture nodes (Some sel) st) =
     (if in_reading sel \<and> 3 \<le> length (trim (sel_text sel))
         \<and> 0 \<le> fst (resolve_offsets nodes sel)
         \<and> fst (resolve_offsets nodes sel) < snd (resolve_offsets nodes sel)
      then st\<lparr>evidence := evidence st @
                [\<lparr>ev_id = ''e'' @ string_of_nat (length (evidence st) + 1),
                  ev_text = sel_text sel,
                  ev_start = fst (resolve_offsets nodes sel),
                  ev_end = snd (resolve_offsets nodes sel)\<rparr>],
              tasks := mark_highlight_done (tasks st)\<rparr>
      else st)"
  by (cases "walk nodes sel 0 (- 1) (- 1)")
     (auto simp: onMouseUpCapture_def resolve_offsets_def trim_empty)

lemma capture_none: "fst (onMouseUpCapture nodes None st) = st"
  by (simp add: onMouseUpCapture_def)

lemma mark_highlight_done_idem:
  "mark_highlight_done (mark_highlight_done ts) = mark_highlight_done ts"
  by (induction ts) simp_all

lemma mark_highlight_done_find:
  "find (\<lambda>t. task_type t = Highlight) (mark_highlight_done ts)
     = map_option (\<lambda>t. t\<lparr>task_done := Some True\<rparr>) (find (\<lambda>t. task_type t = Highlight) ts)"
  by (induction ts) simp_all

lemma mark_highlight_done_others:
  "filter (\<lambda>t. task_type t \<noteq> Highlight) (mark_highlight_done ts)
     = filter (\<lambda>t. task_type t \<noteq> Highlight) ts"
  by (induction ts) simp_all

text \<open>
  C3, as amended. A selection event changes nothing when there is no selection, when
  its text trims to fewer than 3 characters, when it lies outside the reading region,
  when the walker does not meet its start node or its end node, or when the end offset
  it resolves is not beyond the start offset. In every other case exactly one span is
  appended and the first highlight task is marked done; the other tasks are left as
  they were, and marking twice is marking once.
\<close>

theorem selection_atomic:
  "fst (onMouseUpCapture nodes None st) = st
   \<and> (length (trim (sel_text sel)) < 3 \<or> \<not> in_reading sel
        \<or> \<not> start_matched nodes sel \<or> \<not> end_matched nodes sel
        \<or> snd (resolve_offsets nodes sel) \<le> fst (resolve_offsets nodes sel)
      \<longrightarrow> fst (onMouseUpCapture nodes (Some sel) st) = st)
   \<and> (3 \<le> length (trim (sel_text sel)) \<and> in_reading sel
        \<and> start_matched nodes sel \<and> end_matched nodes sel
        \<and> fst (resolve_offsets nodes sel) < snd (resolve_offsets nodes sel)
      \<longrightarrow> fst (onMouseUpCapture nodes (Some sel) st) =
            st\<lparr>evidence := evidence st @
                  [\<lparr>ev_id = ''e'' @ string_of_nat (length (evidence st) + 1),
                    ev_text = sel_text sel,
                    ev_start = fst (resolve_offsets nodes sel),
                    ev_end = snd (resolve_offsets nodes sel)\<rparr>],
               tasks := mark_highlight_done (tasks st)\<rparr>)
   \<and> mark_highlight_done (mark_highlight_done ts) = mark_highlight_done ts
   \<and> find (\<lambda>t. task_type t = Highlight) (mark_highlight_done ts)
       = map_option (\<lambda>t. t\<lparr>task_done := Some True\<rparr>) (find (\<lambda>t. task_type t = Highlight) ts)
   \<and> filter (\<lambda>t. task_type t \<noteq> Highlight) (mark_highlight_done ts)
       = filter (\<lambda>t. task_type t \<noteq> Highlight) ts"
proof -
  have noop: "length (trim (sel_text sel)) < 3 \<or> \<not> in_reading sel
        \<or> \<not> start_matched nodes sel \<or> \<not> end_matched nodes sel
        \<or> snd (resolve_offsets nodes sel) \<le> fst (resolve_offsets nodes sel)
      \<longrightarrow> fst (onMouseUpCapture nodes (Some sel) st) = st"
    unfolding capture_step resolve_matched [symmetric] by auto
  have app: "3 \<le> length (trim (sel_text sel)) \<and> in_reading sel
        \<and> start_matched nodes sel \<and> end_matched nodes sel
        \<and> fst (resolve_offsets nodes sel) < snd (resolve_offsets nodes sel)
      \<longrightarrow> fst (onMouseUpCapture nodes (Some sel) st) =
            st\<lparr>evidence := evidence st @
                  [\<lparr>ev_id = ''e'' @ string_of_nat (length (evidence st) + 1),
                    ev_text = sel_text sel,
                    ev_start = fst (resolve_offsets nodes sel),
                    ev_end = snd (resolve_offsets nodes sel)\<rparr>],
               tasks := mark_highlight_done (tasks st)\<rparr>"
    unfolding capture_step resolve_matched [symmetric] by simp
  from capture_none noop app mark_highlight_done_idem mark_highlight_done_find
    mark_highlight_done_others
  show ?thesis by (intro conjI)
qed

theorem selection_atomic_witness:
  "fst (onMouseUpCapture
     [\<lparr>node_ref = 0, nodeValue = Some ''The cat sat. The dog ran.''\<rparr>]
     (Some \<lparr>startContainer = 0, startOffset = 0, endContainer = 0, endOffset = 12,
            in_reading = True, sel_text = ''The cat sat.''\<rparr>)
     initial_state)
   = initial_state
       \<lparr>evidence := [\<lparr>ev_id = ''e1'', ev_text = ''The cat sat.'', ev_start = 0, ev_end = 12\<rparr>],
        tasks := mark_highlight_done initial_tasks\<rparr>
   \<and> fst (onMouseUpCapture
     [\<lparr>node_ref = 0, nodeValue = Some ''The cat sat. The dog ran.''\<rparr>]
     (Some \<lparr>startContainer = 0, startOffset = 3, endContainer = 0, endOffset = 6,
            in_reading = True, sel_text = '' ca''\<rparr>)
     initial_state)
   = initial_state"
proof -
  let ?nodes = "[\<lparr>node_ref = 0, nodeValue = Some ''The cat sat. The dog ran.''\<rparr>]"
  let ?a = "\<lparr>startContainer = 0, startOffset = 0, endContainer = 0, endOffset = 12,
            in_reading = True, sel_text = ''The cat sat.''\<rparr>"
  let ?b = "\<lparr>startContainer = 0, startOffset = 3, endContainer = 0, endOffset = 6,
            in_reading = True, sel_text = '' ca''\<rparr>"
  have ta: "trim ''The cat sat.'' = ''The cat sat.''"
    by (simp add: trim_def is_space_def)
  have tb: "trim '' ca'' = ''ca''"
    by (simp add: trim_def is_space_def)
  have ra: "resolve_offsets ?nodes ?a = (0, 12)"
    by (simp add: resolve_offsets_def)
  have ma: "start_matched ?nodes ?a \<and> end_matched ?nodes ?a"
    by (simp add: start_matched_def end_matched_def)
  have i: "string_of_nat (Suc 0) = ''1''"
    by code_simp
  from selection_atomic [of ?nodes initial_state ?a] ta ra ma i
  have one: "fst (onMouseUpCapture ?nodes (Some ?a) initial_state)
      = initial_state
       \<lparr>evidence := [\<lparr>ev_id = ''e1'', ev_text = ''The cat sat.'', ev_start = 0, ev_end = 12\<rparr>],
        tasks := mark_highlight_done initial_tasks\<rparr>"
    by (simp add: initial_state_def)
  from selection_atomic [of ?nodes initial_state ?b] tb
  have two: "fst (onMouseUpCapture ?nodes (Some ?b) initial_state) = initial_state"
    by simp
  from one two show ?thesis by simp
qed

text \<open>
  C3 as stated fails: a selection whose text has twelve characters, inside the reading
  region, with both boundary points in the one text node, but with a first range that
  is collapsed at offset 5, leaves the state as it was. (The text of a selection is the
  text of all its ranges; the handler resolves the first range only.)
\<close>

theorem selection_atomic_counterexample:
  "\<not> length (trim ''The dog ran.'') < 3
   \<and> start_matched [\<lparr>node_ref = 0, nodeValue = Some ''The cat sat. The dog ran.''\<rparr>]
        \<lparr>startContainer = 0, startOffset = 5, endContainer = 0, endOffset = 5,
         in_reading = True, sel_text = ''The dog ran.''\<rparr>
   \<and> end_matched [\<lparr>node_ref = 0, nodeValue = Some ''The cat sat. The dog ran.''\<rparr>]
        \<lparr>startContainer = 0, startOffset = 5, endContainer = 0, endOffset = 5,
         in_reading = True, sel_text = ''The dog ran.''\<rparr>
   \<and> fst (onMouseUpCapture
        [\<lparr>node_ref = 0, nodeValue = Some ''The cat sat. The dog ran.''\<rparr>]
        (Some \<lparr>startContainer = 0, startOffset = 5, endContainer = 0, endOffset = 5,
               in_reading = True, sel_text = ''The dog ran.''\<rparr>)
        initial_state)
     = initial_state"
proof -
  have t: "trim ''The dog ran.'' = ''The dog ran.''"
    by (simp add: trim_def is_space_def)
  show ?thesis
    by (simp add: t start_matched_def end_matched_def onMouseUpCapture_def)
qed

section \<open>Evidence capture: the spans\<close>









section \<open>Skim flags: reconciliation\<close>

lemma reconcile_on: "reconcile True True rs = auto_seed_demo True True rs"
  by (simp add: reconcile_def auto_clear_demo_def)

lemma reconcile_off:
  "\<not> (prem \<and> skim) \<Longrightarrow> reconcile prem skim rs = auto_clear_demo prem skim rs"
  by (auto simp: reconcile_def auto_seed_demo_def)

lemma no_flag_no_demo:
  assumes "\<not> list_ex carries_flag rs" and "flags_consistent rs" and "r \<in> set rs"
  shows "\<not> carries_flag r \<and> \<not> truthy_bool (flagsDemo r)"
  using assms by (auto simp: list_ex_iff flags_consistent_def list_all_iff)

lemma carries_flag_test: "(\<lambda>r. truthy_str (flags r)) = carries_flag"
  by (simp add: fun_eq_iff carries_flag_def)

lemma seed_when_unflagged:
  assumes "\<not> list_ex carries_flag rs"
  shows "reconcile True True rs =
     map (\<lambda>r. if name r = ''Ben R.''
               then r\<lparr>flags := Some ''Possible skim'', flagsDemo := Some True\<rparr> else r) rs"
  using assms by (simp add: reconcile_on auto_seed_demo_def carries_flag_test)

lemma seeded_flags:
  assumes "\<not> list_ex carries_flag rs"
  shows "filter carries_flag
           (map (\<lambda>r. if name r = ''Ben R.''
                     then r\<lparr>flags := Some ''Possible skim'', flagsDemo := Some True\<rparr> else r) rs)
         = map (\<lambda>r. r\<lparr>flags := Some ''Possible skim'', flagsDemo := Some True\<rparr>)
             (filter (\<lambda>r. name r = ''Ben R.'') rs)"
  using assms
  by (induction rs) (auto simp: carries_flag_def truthy_str_def)

lemma seeded_demo_flags:
  assumes "\<not> list_ex carries_flag rs"
  shows "filter demo_flag
           (map (\<lambda>r. if name r = ''Ben R.''
                     then r\<lparr>flags := Some ''Possible skim'', flagsDemo := Some True\<rparr> else r) rs)
         = map (\<lambda>r. r\<lparr>flags := Some ''Possible skim'', flagsDemo := Some True\<rparr>)
             (filter (\<lambda>r. name r = ''Ben R.'') rs)"
  using assms
  by (induction rs) (auto simp: demo_flag_def carries_flag_def truthy_str_def truthy_bool_def)

lemma clear_after_seed:
  assumes none: "\<not> list_ex carries_flag rs" and cons: "flags_consistent rs"
    and ben: "\<exists>r \<in> set rs. name r = ''Ben R.''" and off: "\<not> (prem \<and> skim)"
  shows "reconcile prem skim (reconcile True True rs) =
     map (\<lambda>r. if name r = ''Ben R.'' then r\<lparr>flags := None, flagsDemo := None\<rparr> else r) rs"
proof -
  let ?seed = "\<lambda>r. if name r = ''Ben R.''
               then r\<lparr>flags := Some ''Possible skim'', flagsDemo := Some True\<rparr> else r"
  from ben obtain b where b: "b \<in> set rs" "name b = ''Ben R.''"
    by blast
  from b(1) have "?seed b \<in> set (map ?seed rs)"
    by (rule imageI [of b "set rs" ?seed, folded set_map])
  moreover have "truthy_bool (flagsDemo (?seed b))"
    using b(2) by (simp add: truthy_bool_def)
  ultimately have ex: "list_ex (\<lambda>r. truthy_bool (flagsDemo r)) (map ?seed rs)"
    unfolding list_ex_iff by (rule bexI [rotated])
  have "map (\<lambda>r. if truthy_bool (flagsDemo r) then r\<lparr>flags := None, flagsDemo := None\<rparr> else r)
          (map ?seed rs)
        = map (\<lambda>r. if name r = ''Ben R.'' then r\<lparr>flags := None, flagsDemo := None\<rparr> else r) rs"
    using no_flag_no_demo [OF none cons] by (auto simp: truthy_bool_def)
  with ex off show ?thesis
    unfolding seed_when_unflagged [OF none] reconcile_off [OF off]
    by (auto simp: auto_clear_demo_def)
qed

lemma cleared_unflagged:
  assumes "\<not> list_ex carries_flag rs"
  shows "\<not> list_ex carries_flag
           (map (\<lambda>r. if name r = ''Ben R.'' then r\<lparr>flags := None, flagsDemo := None\<rparr> else r) rs)"
  using assms by (auto simp: list_ex_iff carries_flag_def truthy_str_def)

text \<open>
  C6, as amended. In a learner set with exactly one learner named \<open>Ben R.\<close> and no
  flag, switching both switches on gives that learner, and nobody else, the demo flag
  \<open>Possible skim\<close>; switching either switch off afterwards removes that flag and
  changes no other learner; switching both on again gives the same rows as the first
  time.
\<close>

theorem demo_flag_cycle:
  assumes one: "length (filter (\<lambda>r. name r = ''Ben R.'') rs) = 1"
    and none: "\<not> list_ex carries_flag rs"
    and cons: "flags_consistent rs"
  shows "reconcile True True rs =
           map (\<lambda>r. if name r = ''Ben R.''
                     then r\<lparr>flags := Some ''Possible skim'', flagsDemo := Some True\<rparr> else r) rs
       \<and> length (filter carries_flag (reconcile True True rs)) = 1
       \<and> length (filter demo_flag (reconcile True True rs)) = 1
       \<and> (\<not> (prem \<and> skim) \<longrightarrow>
            reconcile prem skim (reconcile True True rs) =
              map (\<lambda>r. if name r = ''Ben R.''
                        then r\<lparr>flags := None, flagsDemo := None\<rparr> else r) rs
            \<and> \<not> list_ex carries_flag (reconcile prem skim (reconcile True True rs))
            \<and> reconcile True True (reconcile prem skim (reconcile True True rs))
                = reconcile True True rs)"
proof -
  note seed = seed_when_unflagged [OF none]
  have ben: "\<exists>r \<in> set rs. name r = ''Ben R.''"
  proof -
    from one have "filter (\<lambda>r. name r = ''Ben R.'') rs \<noteq> []"
      by auto
    then show ?thesis
      by (simp add: filter_empty_conv)
  qed
  have c1: "length (filter carries_flag (reconcile True True rs)) = 1"
    unfolding seed seeded_flags [OF none] using one by simp
  have c2: "length (filter demo_flag (reconcile True True rs)) = 1"
    unfolding seed seeded_demo_flags [OF none] using one by simp
  have off: "\<not> (prem \<and> skim) \<longrightarrow>
            reconcile prem skim (reconcile True True rs) =
              map (\<lambda>r. if name r = ''Ben R.''
                        then r\<lparr>flags := None, flagsDemo := None\<rparr> else r) rs
            \<and> \<not> list_ex carries_flag (reconcile prem skim (reconcile True True rs))
            \<and> reconcile True True (reconcile prem skim (reconcile True True rs))
                = reconcile True True rs"
  proof
    assume o: "\<not> (prem \<and> skim)"
    note clr = clear_after_seed [OF none cons ben o]
    note unfl = cleared_unflagged [OF none]
    have "reconcile True True
            (map (\<lambda>r. if name r = ''Ben R.''
                      then r\<lparr>flags := None, flagsDemo := None\<rparr> else r) rs)
          = reconcile True True rs"
      unfolding seed_when_unflagged [OF unfl] seed by simp
    with clr unfl show "reconcile prem skim (reconcile True True rs) =
              map (\<lambda>r. if name r = ''Ben R.''
                        then r\<lparr>flags := None, flagsDemo := None\<rparr> else r) rs
            \<and> \<not> list_ex carries_flag (reconcile prem skim (reconcile True True rs))
            \<and> reconcile True True (reconcile prem skim (reconcile True True rs))
                = reconcile True True rs"
      by simp
  qed
  from seed c1 c2 off show ?thesis
    by (intro conjI)
qed

lemma initial_rows_flags:
  "length (filter (\<lambda>r. name r = ''Ben R.'') initial_rows) = 1"
  "\<not> list_ex carries_flag initial_rows"
  "flags_consistent initial_rows"
  by (simp_all add: initial_rows_def new_row_def carries_flag_def truthy_str_def
      flags_consistent_def truthy_bool_def)

theorem demo_flag_cycle_witness:
  "reconcile True True initial_rows =
     [new_row ''Alice W.'' ''15m'' ''7/7'' Strong,
      (new_row ''Ben R.'' ''9m'' ''5/7'' Weak)
        \<lparr>flags := Some ''Possible skim'', flagsDemo := Some True\<rparr>,
      new_row ''Chris T.'' ''14m'' ''6/7'' Medium]
   \<and> length (filter carries_flag (reconcile True True initial_rows)) = 1
   \<and> reconcile True False (reconcile True True initial_rows) = initial_rows
   \<and> reconcile True True (reconcile True False (reconcile True True initial_rows))
       = reconcile True True initial_rows"
proof -
  note c = demo_flag_cycle [OF initial_rows_flags, of True False]
  have a: "map (\<lambda>r. if name r = ''Ben R.''
                     then r\<lparr>flags := Some ''Possible skim'', flagsDemo := Some True\<rparr> else r)
             initial_rows
           = [new_row ''Alice W.'' ''15m'' ''7/7'' Strong,
              (new_row ''Ben R.'' ''9m'' ''5/7'' Weak)
                \<lparr>flags := Some ''Possible skim'', flagsDemo := Some True\<rparr>,
              new_row ''Chris T.'' ''14m'' ''6/7'' Medium]"
    by (simp add: initial_rows_def new_row_def)
  have b: "map (\<lambda>r. if name r = ''Ben R.''
                     then r\<lparr>flags := None, flagsDemo := None\<rparr> else r) initial_rows
           = initial_rows"
    by (simp add: initial_rows_def new_row_def)
  have s1: "reconcile True True initial_rows =
     [new_row ''Alice W.'' ''15m'' ''7/7'' Strong,
      (new_row ''Ben R.'' ''9m'' ''5/7'' Weak)
        \<lparr>flags := Some ''Possible skim'', flagsDemo := Some True\<rparr>,
      new_row ''Chris T.'' ''14m'' ''6/7'' Medium]"
    using c [THEN conjunct1] unfolding a .
  have s2: "length (filter carries_flag (reconcile True True initial_rows)) = 1"
    using c [THEN conjunct2, THEN conjunct1] .
  have off: "reconcile True False (reconcile True True initial_rows) =
              map (\<lambda>r. if name r = ''Ben R.''
                        then r\<lparr>flags := None, flagsDemo := None\<rparr> else r) initial_rows
            \<and> \<not> list_ex carries_flag (reconcile True False (reconcile True True initial_rows))
            \<and> reconcile True True (reconcile True False (reconcile True True initial_rows))
                = reconcile True True initial_rows"
    using c [THEN conjunct2, THEN conjunct2, THEN conjunct2] by blast
  have s3: "reconcile True False (reconcile True True initial_rows) = initial_rows"
    using off [THEN conjunct1] unfolding b .
  have s4: "reconcile True True (reconcile True False (reconcile True True initial_rows))
       = reconcile True True initial_rows"
    using off [THEN conjunct2, THEN conjunct2] .
  from s1 s2 s3 s4 show ?thesis
    by (intro conjI)
qed

text \<open>
  C6 as stated fails for a learner set without a learner of that name: both switches
  on, no flag present, and no flag is attached.
\<close>

theorem demo_flag_counterexample:
  "\<not> list_ex carries_flag [new_row ''Alice W.'' ''15m'' ''7/7'' Strong]
   \<and> filter carries_flag (reconcile True True [new_row ''Alice W.'' ''15m'' ''7/7'' Strong]) = []"
  by (simp add: reconcile_def auto_seed_demo_def auto_clear_demo_def new_row_def
      carries_flag_def truthy_str_def)

section \<open>Skim flags: persisted flags\<close>

lemma reconcile_length: "length (reconcile prem skim rs) = length rs"
  by (simp add: reconcile_def auto_seed_demo_def auto_clear_demo_def)

lemma seed_keeps_persisted:
  assumes "i < length rs" and "persisted_flag (rs ! i)"
  shows "auto_seed_demo prem skim rs = rs"
proof -
  from assms(1) have "rs ! i \<in> set rs"
    by (rule nth_mem)
  moreover from assms(2) have "carries_flag (rs ! i)"
    by (simp add: persisted_flag_def)
  ultimately have "list_ex carries_flag rs"
    unfolding list_ex_iff by (rule bexI [rotated])
  then show ?thesis
    by (simp add: auto_seed_demo_def carries_flag_test)
qed

lemma clear_keeps_persisted:
  assumes "i < length rs" and "persisted_flag (rs ! i)"
  shows "auto_clear_demo prem skim rs ! i = rs ! i"
  using assms by (simp add: auto_clear_demo_def persisted_flag_def)

lemma reconcile_keeps_persisted:
  assumes "i < length rs" and "persisted_flag (rs ! i)"
  shows "reconcile prem skim rs ! i = rs ! i"
  unfolding reconcile_def seed_keeps_persisted [OF assms]
  by (rule clear_keeps_persisted [OF assms])

lemma seed_no_new_persisted:
  assumes i: "i < length rs" and p: "persisted_flag (auto_seed_demo prem skim rs ! i)"
  shows "auto_seed_demo prem skim rs ! i = rs ! i"
proof (cases "prem \<and> skim \<and> \<not> list_ex carries_flag rs")
  case False
  then have "auto_seed_demo prem skim rs = rs"
    by (auto simp: auto_seed_demo_def carries_flag_test)
  then show ?thesis by simp
next
  case True
  let ?seed = "\<lambda>r. if name r = ''Ben R.''
               then r\<lparr>flags := Some ''Possible skim'', flagsDemo := Some True\<rparr> else r"
  from True have "auto_seed_demo prem skim rs = map ?seed rs"
    by (simp add: auto_seed_demo_def carries_flag_test)
  with i have eq: "auto_seed_demo prem skim rs ! i = ?seed (rs ! i)"
    by simp
  show ?thesis
  proof (cases "name (rs ! i) = ''Ben R.''")
    case True
    with p eq show ?thesis
      by (simp add: persisted_flag_def truthy_bool_def)
  next
    case False
    with eq show ?thesis by simp
  qed
qed

lemma clear_no_new_persisted:
  assumes i: "i < length rs" and p: "persisted_flag (auto_clear_demo prem skim rs ! i)"
  shows "auto_clear_demo prem skim rs ! i = rs ! i"
proof (cases "(\<not> prem \<or> \<not> skim) \<and> list_ex (\<lambda>r. truthy_bool (flagsDemo r)) rs")
  case False
  then have "auto_clear_demo prem skim rs = rs"
    by (auto simp: auto_clear_demo_def)
  then show ?thesis by simp
next
  case True
  let ?clear = "\<lambda>r. if truthy_bool (flagsDemo r)
                then r\<lparr>flags := None, flagsDemo := None\<rparr> else r"
  from True have "auto_clear_demo prem skim rs = map ?clear rs"
    by (simp add: auto_clear_demo_def)
  with i have eq: "auto_clear_demo prem skim rs ! i = ?clear (rs ! i)"
    by simp
  show ?thesis
  proof (cases "truthy_bool (flagsDemo (rs ! i))")
    case True
    with p eq show ?thesis
      by (simp add: persisted_flag_def carries_flag_def truthy_str_def)
  next
    case False
    with eq show ?thesis by simp
  qed
qed

lemma reconcile_no_new_persisted:
  assumes i: "i < length rs" and p: "persisted_flag (reconcile prem skim rs ! i)"
  shows "reconcile prem skim rs ! i = rs ! i"
proof -
  have l: "i < length (auto_seed_demo prem skim rs)"
    using i by (simp add: auto_seed_demo_def)
  from p have "reconcile prem skim rs ! i = auto_seed_demo prem skim rs ! i"
    unfolding reconcile_def by (rule clear_no_new_persisted [OF l])
  moreover from this p have "auto_seed_demo prem skim rs ! i = rs ! i"
    by (simp add: seed_no_new_persisted [OF i])
  ultimately show ?thesis by simp
qed

lemma run_toggles_length: "length (run_toggles ts rs) = length rs"
  by (induction ts rs rule: run_toggles.induct) (simp_all add: reconcile_length)

lemma run_toggles_keeps_persisted:
  "i < length rs \<Longrightarrow> persisted_flag (rs ! i) \<Longrightarrow> run_toggles ts rs ! i = rs ! i"
proof (induction ts rs rule: run_toggles.induct)
  case (1 rs)
  then show ?case by simp
next
  case (2 prem skim ts rs)
  have same: "reconcile prem skim rs ! i = rs ! i"
    using "2.prems" by (rule reconcile_keeps_persisted)
  have "run_toggles ts (reconcile prem skim rs) ! i = reconcile prem skim rs ! i"
    using "2.prems" same by (intro "2.IH") (simp_all add: reconcile_length)
  with same show ?case by simp
qed

lemma run_toggles_no_new_persisted:
  "i < length rs \<Longrightarrow> persisted_flag (run_toggles ts rs ! i) \<Longrightarrow> run_toggles ts rs ! i = rs ! i"
proof (induction ts rs rule: run_toggles.induct)
  case (1 rs)
  then show ?case by simp
next
  case (2 prem skim ts rs)
  have l: "i < length (reconcile prem skim rs)"
    using "2.prems"(1) by (simp add: reconcile_length)
  have p: "persisted_flag (run_toggles ts (reconcile prem skim rs) ! i)"
    using "2.prems"(2) by simp
  have step: "run_toggles ts (reconcile prem skim rs) ! i = reconcile prem skim rs ! i"
    using l p by (rule "2.IH")
  with p have "persisted_flag (reconcile prem skim rs ! i)"
    by simp
  with "2.prems"(1) have "reconcile prem skim rs ! i = rs ! i"
    by (rule reconcile_no_new_persisted)
  with step show ?case by simp
qed

lemma seed_row:
  "name (if name x = n then x\<lparr>flags := Some l, flagsDemo := Some False\<rparr> else x) = n \<longrightarrow>
     flags (if name x = n then x\<lparr>flags := Some l, flagsDemo := Some False\<rparr> else x) = Some l
     \<and> flagsDemo (if name x = n then x\<lparr>flags := Some l, flagsDemo := Some False\<rparr> else x)
         = Some False"
  by (cases "name x = n") simp_all

lemma seed_creates_persisted:
  "\<forall>r \<in> set (seedRealFlag n label rs).
     name r = n \<longrightarrow>
       flags r = Some (case label of None \<Rightarrow> ''Skim (real)'' | Some l \<Rightarrow> l)
       \<and> flagsDemo r = Some False"
proof
  fix r
  let ?l = "case label of None \<Rightarrow> ''Skim (real)'' | Some l \<Rightarrow> l"
  assume "r \<in> set (seedRealFlag n label rs)"
  then have "r \<in> (\<lambda>x. if name x = n then x\<lparr>flags := Some ?l, flagsDemo := Some False\<rparr> else x)
                 ` set rs"
    by (simp only: seedRealFlag_def Let_def set_map)
  then obtain x where
    r: "r = (if name x = n then x\<lparr>flags := Some ?l, flagsDemo := Some False\<rparr> else x)"
    by (rule imageE)
  show "name r = n \<longrightarrow> flags r = Some ?l \<and> flagsDemo r = Some False"
    unfolding r by (rule seed_row)
qed

lemma clear_row:
  "\<not> persisted_flag (if truthy_bool (flagsDemo x) then x else x\<lparr>flags := None\<rparr>)"
  by (simp add: persisted_flag_def carries_flag_def truthy_str_def)

lemma clear_removes_persisted:
  "\<forall>r \<in> set (clearRealFlags rs). \<not> persisted_flag r"
proof
  fix r
  assume "r \<in> set (clearRealFlags rs)"
  then have "r \<in> (\<lambda>x. if truthy_bool (flagsDemo x) then x else x\<lparr>flags := None\<rparr>) ` set rs"
    by (simp only: clearRealFlags_def set_map)
  then obtain x where
    r: "r = (if truthy_bool (flagsDemo x) then x else x\<lparr>flags := None\<rparr>)"
    by (rule imageE)
  show "\<not> persisted_flag r"
    unfolding r by (rule clear_row)
qed

text \<open>
  C7. Whatever the sequence of settings of the two switches, reconciliation keeps the
  number and order of the rows; a row that carries a persisted flag before the
  sequence is the same row after it; and a row that carries a persisted flag after the
  sequence is the row it was before, so reconciliation creates none. The seed call
  gives the named learner a flag that is not a demo flag, and after the clear call no
  row carries a persisted flag.
\<close>

theorem persisted_flag_survives:
  "length (run_toggles ts rs) = length rs
   \<and> (\<forall>i < length rs. persisted_flag (rs ! i) \<longrightarrow> run_toggles ts rs ! i = rs ! i)
   \<and> (\<forall>i < length rs. persisted_flag (run_toggles ts rs ! i) \<longrightarrow> run_toggles ts rs ! i = rs ! i)
   \<and> (\<forall>r \<in> set (seedRealFlag n label rs).
         name r = n \<longrightarrow>
           flags r = Some (case label of None \<Rightarrow> ''Skim (real)'' | Some l \<Rightarrow> l)
           \<and> flagsDemo r = Some False)
   \<and> (\<forall>r \<in> set (clearRealFlags rs). \<not> persisted_flag r)"
proof (intro conjI)
  show "length (run_toggles ts rs) = length rs"
    by (rule run_toggles_length)
  show "\<forall>i < length rs. persisted_flag (rs ! i) \<longrightarrow> run_toggles ts rs ! i = rs ! i"
    by (intro allI impI) (rule run_toggles_keeps_persisted)
  show "\<forall>i < length rs. persisted_flag (run_toggles ts rs ! i) \<longrightarrow> run_toggles ts rs ! i = rs ! i"
    by (intro allI impI) (rule run_toggles_no_new_persisted)
  show "\<forall>r \<in> set (seedRealFlag n label rs).
         name r = n \<longrightarrow>
           flags r = Some (case label of None \<Rightarrow> ''Skim (real)'' | Some l \<Rightarrow> l)
           \<and> flagsDemo r = Some False"
    by (rule seed_creates_persisted)
  show "\<forall>r \<in> set (clearRealFlags rs). \<not> persisted_flag r"
    by (rule clear_removes_persisted)
qed

theorem persisted_flag_survives_witness:
  "persisted_flag (seedRealFlag ''Alice W.'' None initial_rows ! 0)
   \<and> run_toggles three_cycles (seedRealFlag ''Alice W.'' None initial_rows) ! 0
     = (new_row ''Alice W.'' ''15m'' ''7/7'' Strong)
         \<lparr>flags := Some ''Skim (real)'', flagsDemo := Some False\<rparr>"
proof -
  have r: "seedRealFlag ''Alice W.'' None initial_rows ! 0
     = (new_row ''Alice W.'' ''15m'' ''7/7'' Strong)
         \<lparr>flags := Some ''Skim (real)'', flagsDemo := Some False\<rparr>"
    by (simp add: seedRealFlag_def Let_def initial_rows_def new_row_def)
  have p: "persisted_flag (seedRealFlag ''Alice W.'' None initial_rows ! 0)"
    unfolding r
    by (simp add: persisted_flag_def carries_flag_def truthy_str_def truthy_bool_def new_row_def)
  have l: "0 < length (seedRealFlag ''Alice W.'' None initial_rows)"
    by (simp add: seedRealFlag_def Let_def initial_rows_def)
  from persisted_flag_survives [of three_cycles "seedRealFlag ''Alice W.'' None initial_rows"]
  have "\<forall>i < length (seedRealFlag ''Alice W.'' None initial_rows).
          persisted_flag (seedRealFlag ''Alice W.'' None initial_rows ! i) \<longrightarrow>
          run_toggles three_cycles (seedRealFlag ''Alice W.'' None initial_rows) ! i
            = seedRealFlag ''Alice W.'' None initial_rows ! i"
    by blast
  with l p have "run_toggles three_cycles (seedRealFlag ''Alice W.'' None initial_rows) ! 0
            = seedRealFlag ''Alice W.'' None initial_rows ! 0"
    by blast
  with p r show ?thesis by simp
qed

text \<open>Every operation on flags keeps the demo marker tied to a flag.\<close>

lemma list_all_map_pointwise:
  "list_all P rs \<Longrightarrow> (\<And>r. P r \<Longrightarrow> P (f r)) \<Longrightarrow> list_all P (map f rs)"
  by (induction rs) simp_all

lemma seed_row_consistent:
  "truthy_bool (flagsDemo r) \<longrightarrow> carries_flag r \<Longrightarrow>
   truthy_bool (flagsDemo (if name r = ''Ben R.''
        then r\<lparr>flags := Some ''Possible skim'', flagsDemo := Some True\<rparr> else r))
   \<longrightarrow> carries_flag (if name r = ''Ben R.''
        then r\<lparr>flags := Some ''Possible skim'', flagsDemo := Some True\<rparr> else r)"
  by (cases "name r = ''Ben R.''") (simp_all add: carries_flag_def truthy_str_def)

lemma clear_row_consistent:
  "truthy_bool (flagsDemo r) \<longrightarrow> carries_flag r \<Longrightarrow>
   truthy_bool (flagsDemo (if truthy_bool (flagsDemo r)
        then r\<lparr>flags := None, flagsDemo := None\<rparr> else r))
   \<longrightarrow> carries_flag (if truthy_bool (flagsDemo r)
        then r\<lparr>flags := None, flagsDemo := None\<rparr> else r)"
  by (cases "truthy_bool (flagsDemo r)") (simp_all add: truthy_bool_def)

lemma auto_seed_demo_consistent:
  assumes "flags_consistent rs"
  shows "flags_consistent (auto_seed_demo prem skim rs)"
proof (cases "prem \<and> skim \<and> \<not> list_ex carries_flag rs")
  case False
  then have "auto_seed_demo prem skim rs = rs"
    by (auto simp: auto_seed_demo_def carries_flag_test)
  with assms show ?thesis by simp
next
  case True
  then have "auto_seed_demo prem skim rs =
      map (\<lambda>r. if name r = ''Ben R.''
                then r\<lparr>flags := Some ''Possible skim'', flagsDemo := Some True\<rparr> else r) rs"
    by (simp add: auto_seed_demo_def carries_flag_test)
  with assms show ?thesis
    unfolding flags_consistent_def
    by (simp only: list_all_map_pointwise [where P = "\<lambda>r. truthy_bool (flagsDemo r) \<longrightarrow> carries_flag r",
          OF _ seed_row_consistent])
qed

lemma auto_clear_demo_consistent:
  assumes "flags_consistent rs"
  shows "flags_consistent (auto_clear_demo prem skim rs)"
proof (cases "(\<not> prem \<or> \<not> skim) \<and> list_ex (\<lambda>r. truthy_bool (flagsDemo r)) rs")
  case False
  then have "auto_clear_demo prem skim rs = rs"
    by (auto simp: auto_clear_demo_def)
  with assms show ?thesis by simp
next
  case True
  then have "auto_clear_demo prem skim rs =
      map (\<lambda>r. if truthy_bool (flagsDemo r)
                then r\<lparr>flags := None, flagsDemo := None\<rparr> else r) rs"
    by (simp add: auto_clear_demo_def)
  with assms show ?thesis
    unfolding flags_consistent_def
    by (simp only: list_all_map_pointwise [where P = "\<lambda>r. truthy_bool (flagsDemo r) \<longrightarrow> carries_flag r",
          OF _ clear_row_consistent])
qed

lemma reconcile_consistent:
  "flags_consistent rs \<Longrightarrow> flags_consistent (reconcile prem skim rs)"
  unfolding reconcile_def by (intro auto_clear_demo_consistent auto_seed_demo_consistent)

lemma seedRealFlag_consistent:
  assumes "flags_consistent rs"
  shows "flags_consistent (seedRealFlag n label rs)"
proof -
  have "truthy_bool (flagsDemo (if name r = n then r\<lparr>flags := Some l, flagsDemo := Some False\<rparr> else r))
         \<longrightarrow> carries_flag (if name r = n then r\<lparr>flags := Some l, flagsDemo := Some False\<rparr> else r)"
    if "truthy_bool (flagsDemo r) \<longrightarrow> carries_flag r" for r l
    using that by (cases "name r = n") (simp_all add: truthy_bool_def)
  with assms show ?thesis
    unfolding flags_consistent_def seedRealFlag_def Let_def
    by (rule list_all_map_pointwise)
qed

lemma clearRealFlags_consistent:
  assumes "flags_consistent rs"
  shows "flags_consistent (clearRealFlags rs)"
proof -
  have "truthy_bool (flagsDemo (if truthy_bool (flagsDemo r) then r else r\<lparr>flags := None\<rparr>))
         \<longrightarrow> carries_flag (if truthy_bool (flagsDemo r) then r else r\<lparr>flags := None\<rparr>)"
    if "truthy_bool (flagsDemo r) \<longrightarrow> carries_flag r" for r
    using that by (cases "truthy_bool (flagsDemo r)") simp_all
  with assms show ?thesis
    unfolding flags_consistent_def clearRealFlags_def
    by (rule list_all_map_pointwise)
qed

text \<open>Running either block, or both, a second time changes nothing.\<close>

lemma auto_seed_demo_idem:
  "auto_seed_demo prem skim (auto_seed_demo prem skim rs) = auto_seed_demo prem skim rs"
proof (cases "prem \<and> skim \<and> \<not> list_ex carries_flag rs")
  case False
  then have "auto_seed_demo prem skim rs = rs"
    by (auto simp: auto_seed_demo_def carries_flag_test)
  then show ?thesis by simp
next
  case True
  let ?seed = "\<lambda>r. if name r = ''Ben R.''
               then r\<lparr>flags := Some ''Possible skim'', flagsDemo := Some True\<rparr> else r"
  from True have eq: "auto_seed_demo prem skim rs = map ?seed rs"
    by (simp add: auto_seed_demo_def carries_flag_test)
  have twice: "?seed (?seed r) = ?seed r" for r :: StudentRow
    by (cases "name r = ''Ben R.''") simp_all
  have "map ?seed (map ?seed rs) = map ?seed rs"
    unfolding map_map comp_def twice ..
  then have "auto_seed_demo prem skim (map ?seed rs) = map ?seed rs"
    by (simp add: auto_seed_demo_def)
  then show ?thesis
    unfolding eq .
qed

lemma auto_clear_demo_idem:
  "auto_clear_demo prem skim (auto_clear_demo prem skim rs) = auto_clear_demo prem skim rs"
proof (cases "(\<not> prem \<or> \<not> skim) \<and> list_ex (\<lambda>r. truthy_bool (flagsDemo r)) rs")
  case False
  then have "auto_clear_demo prem skim rs = rs"
    by (auto simp: auto_clear_demo_def)
  then show ?thesis by simp
next
  case True
  let ?clear = "\<lambda>r. if truthy_bool (flagsDemo r)
                then r\<lparr>flags := None, flagsDemo := None\<rparr> else r"
  from True have eq: "auto_clear_demo prem skim rs = map ?clear rs"
    by (simp add: auto_clear_demo_def)
  have twice: "?clear (?clear r) = ?clear r" for r :: StudentRow
    by (cases "truthy_bool (flagsDemo r)") (simp_all add: truthy_bool_def)
  have "map ?clear (map ?clear rs) = map ?clear rs"
    unfolding map_map comp_def twice ..
  then have "auto_clear_demo prem skim (map ?clear rs) = map ?clear rs"
    by (simp add: auto_clear_demo_def)
  then show ?thesis
    unfolding eq .
qed

lemma reconcile_idem:
  "reconcile prem skim (reconcile prem skim rs) = reconcile prem skim rs"
proof (cases "prem \<and> skim")
  case True
  then have "reconcile prem skim xs = auto_seed_demo prem skim xs" for xs
    by (simp add: reconcile_def auto_clear_demo_def)
  then show ?thesis
    by (simp add: auto_seed_demo_idem)
next
  case False
  then have "reconcile prem skim xs = auto_clear_demo prem skim xs" for xs
    by (rule reconcile_off)
  then show ?thesis
    by (simp add: auto_clear_demo_idem)
qed

end
